theory Spec2Isabelle
  imports Main "HOL-Library.Word"
begin

unbundle bit_operations_syntax

section \<open>Nexus Channel origin commands: data model\<close>

text \<open>
  The module \<open>channel_origin_commands.py\<close> builds short decimal tokens
  \<open>[1-digit command code][N-digit body][M-digit auth]\<close>. Python integers are modelled
  as \<open>int\<close>, byte strings as lists of 8-bit words, text strings as \<open>string\<close>, and every
  exception the code can raise as a value of \<open>error\<close>.
\<close>

type_synonym byte = "8 word"

datatype error = AssertionError | CreationError | ValueError

datatype OriginCommandType =
  GENERIC_CONTROLLER_ACTION
| UNLOCK_ACCESSORY
| UNLINK_ACCESSORY
| LINK_ACCESSORY_MODE_3

fun OriginCommandType_value :: "OriginCommandType \<Rightarrow> int" where
  "OriginCommandType_value GENERIC_CONTROLLER_ACTION = 0"
| "OriginCommandType_value UNLOCK_ACCESSORY = 1"
| "OriginCommandType_value UNLINK_ACCESSORY = 2"
| "OriginCommandType_value LINK_ACCESSORY_MODE_3 = 9"

datatype GenericControllerActionType =
  UNLINK_ALL_ACCESSORIES
| UNLOCK_ALL_ACCESSORIES

fun GenericControllerActionType_value :: "GenericControllerActionType \<Rightarrow> int" where
  "GenericControllerActionType_value UNLINK_ALL_ACCESSORIES = 0"
| "GenericControllerActionType_value UNLOCK_ALL_ACCESSORIES = 1"

text \<open>The three attributes set by \<open>ChannelOriginCommandToken.__init__\<close>.\<close>

record ChannelOriginCommandToken =
  type_code :: int
  body :: string
  auth :: string

text \<open>
  The keyed hash \<open>siphash.SipHash_2_4(key, message).hash()\<close> comes from a library outside
  the repository. The builders take it as a parameter of this type: a key and a message give
  a 64-bit tag.
\<close>

type_synonym mac_fn = "byte list \<Rightarrow> byte list \<Rightarrow> 64 word"

section \<open>Python string formatting\<close>

definition digit_char :: "nat \<Rightarrow> char" where
  "digit_char d = char_of (48 + d)"

definition is_digit :: "char \<Rightarrow> bool" where
  "is_digit c = (48 \<le> (of_char c :: nat) \<and> (of_char c :: nat) \<le> 57)"

text \<open>\<open>str(n)\<close> for a natural number: its decimal digits, most significant first.\<close>

fun str_nat :: "nat \<Rightarrow> string" where
  "str_nat n = (if n < 10 then [digit_char n]
                else str_nat (n div 10) @ [digit_char (n mod 10)])"

declare str_nat.simps [simp del]

text \<open>\<open>"{}".format(i)\<close> for an integer.\<close>

definition str_int :: "int \<Rightarrow> string" where
  "str_int i = (if i < 0 then CHR ''-'' # str_nat (nat (- i)) else str_nat (nat i))"

text \<open>
  \<open>"{:0Wd}".format(i)\<close>: the decimal digits of \<open>i\<close>, filled with zeros on the left up to
  \<open>W\<close> characters; the sign of a negative number comes first and counts in the width.
\<close>

definition format_0d :: "nat \<Rightarrow> int \<Rightarrow> string" where
  "format_0d width i =
     (if i < 0
      then CHR ''-'' # replicate (width - 1 - length (str_nat (nat (- i)))) CHR ''0''
             @ str_nat (nat (- i))
      else replicate (width - length (str_nat (nat i))) CHR ''0'' @ str_nat (nat i))"

text \<open>
  The slice \<open>s[-n:]\<close> for \<open>n \<ge> 0\<close>: the last \<open>n\<close> characters, the whole string when
  \<open>n\<close> exceeds its length, and also when \<open>n = 0\<close> (since \<open>-0\<close> is \<open>0\<close>).
\<close>

definition slice_last :: "nat \<Rightarrow> string \<Rightarrow> string" where
  "slice_last n s = (if n = 0 then s else drop (length s - n) s)"

text \<open>
  \<open>int(s)\<close> on a string: the code calls it on the digits that \<open>digits_from_siphash\<close>
  returned. A string that is empty or holds another character raises \<open>ValueError\<close>.
\<close>

definition digit_value :: "char \<Rightarrow> int" where
  "digit_value c = int (of_char c) - 48"

definition py_int :: "string \<Rightarrow> error + int" where
  "py_int s = (if s = [] \<or> \<not> list_all is_digit s then Inl ValueError
               else Inr (foldl (\<lambda>acc c. 10 * acc + digit_value c) 0 s))"

section \<open>The token base class\<close>

text \<open>\<open>ChannelOriginCommandToken.digits_from_siphash\<close>, on the value of \<open>hash()\<close>.\<close>

definition digits_from_siphash :: "64 word \<Rightarrow> nat \<Rightarrow> string" where
  "digits_from_siphash siphash_hash digits =
     slice_last digits (format_0d digits (uint (siphash_hash AND 0xffffffff)))"

text \<open>
  \<open>ChannelOriginCommandToken.to_digits\<close>. The transform \<open>full_obscure\<close> lives in
  \<open>nexus_keycode.protocols.utils\<close> and is a parameter here: it receives the whole string and
  the number of leading digits to obscure.
\<close>

definition obscured_digit_count :: "ChannelOriginCommandToken \<Rightarrow> nat" where
  "obscured_digit_count tok =
     length (str_int (type_code tok) @ body tok @ auth tok) - length (auth tok)"

definition to_digits ::
  "(string \<Rightarrow> nat \<Rightarrow> string) \<Rightarrow> ChannelOriginCommandToken \<Rightarrow> bool \<Rightarrow> string" where
  "to_digits full_obscure tok obscured =
     (let result = str_int (type_code tok) @ body tok @ auth tok
      in if obscured then full_obscure result (obscured_digit_count tok) else result)"

section \<open>Canonical packing\<close>

text \<open>
  \<open>bitstring.pack\<close> with \<open>uintle:N=name\<close> fields. The library refuses a value that is
  negative or does not fit in \<open>N\<close> bits, and a little-endian field that is not whole bytes,
  by raising \<open>bitstring.CreationError\<close>; otherwise the field is the \<open>N div 8\<close> bytes of the
  value, least significant first.
\<close>

definition uintle :: "nat \<Rightarrow> int \<Rightarrow> error + byte list" where
  "uintle len v =
     (if v < 0 \<or> 2 ^ len \<le> v \<or> len mod 8 \<noteq> 0 then Inl CreationError
      else Inr (map (\<lambda>i. word_of_int (drop_bit (8 * i) v)) [0..<len div 8]))"

fun pack :: "(nat \<times> int) list \<Rightarrow> error + byte list" where
  "pack [] = Inr []"
| "pack ((len, v) # rest_fields) =
     (case uintle len v of
        Inl e \<Rightarrow> Inl e
      | Inr bs \<Rightarrow> (case pack rest_fields of Inl e \<Rightarrow> Inl e | Inr rest \<Rightarrow> Inr (bs @ rest)))"

section \<open>Generic controller actions\<close>

definition GenericControllerActionToken_init ::
  "GenericControllerActionType \<Rightarrow> string \<Rightarrow> 64 word \<Rightarrow> ChannelOriginCommandToken" where
  "GenericControllerActionToken_init type' controller_command auth_hash =
     \<lparr>type_code = OriginCommandType_value GENERIC_CONTROLLER_ACTION,
      body = controller_command,
      auth = digits_from_siphash auth_hash 6\<rparr>"

definition generic_controller_action_builder ::
  "mac_fn \<Rightarrow> GenericControllerActionType \<Rightarrow> int \<Rightarrow> byte list
     \<Rightarrow> error + ChannelOriginCommandToken" where
  "generic_controller_action_builder mac type' controller_command_count controller_sym_key =
     (if length controller_sym_key \<noteq> 16 then Inl AssertionError
      else
        let controller_command_value = GenericControllerActionType_value type' in
        case pack [(32, controller_command_count),
                   (8, OriginCommandType_value GENERIC_CONTROLLER_ACTION),
                   (32, controller_command_value)] of
          Inl e \<Rightarrow> Inl e
        | Inr packed_target_inputs \<Rightarrow>
            if length packed_target_inputs \<noteq> 9 then Inl AssertionError
            else Inr (GenericControllerActionToken_init type'
                        (format_0d 2 controller_command_value)
                        (mac controller_sym_key packed_target_inputs)))"

definition unlink_all_accessories ::
  "mac_fn \<Rightarrow> int \<Rightarrow> byte list \<Rightarrow> error + ChannelOriginCommandToken" where
  "unlink_all_accessories mac controller_command_count controller_sym_key =
     generic_controller_action_builder mac UNLINK_ALL_ACCESSORIES
       controller_command_count controller_sym_key"

definition unlock_all_accessories ::
  "mac_fn \<Rightarrow> int \<Rightarrow> byte list \<Rightarrow> error + ChannelOriginCommandToken" where
  "unlock_all_accessories mac controller_command_count controller_sym_key =
     generic_controller_action_builder mac UNLOCK_ALL_ACCESSORIES
       controller_command_count controller_sym_key"

section \<open>Actions on one linked accessory\<close>

definition SpecificLinkedAccessoryToken_init ::
  "OriginCommandType \<Rightarrow> int \<Rightarrow> 64 word \<Rightarrow> ChannelOriginCommandToken" where
  "SpecificLinkedAccessoryToken_init type' accessory_nexus_id auth_hash =
     (let truncated_accessory_nexus_id =
            format_0d 1 ((accessory_nexus_id AND 0xFFFFFFFF) mod 10)
      in \<lparr>type_code = OriginCommandType_value type',
          body = truncated_accessory_nexus_id,
          auth = digits_from_siphash auth_hash 6\<rparr>)"

definition specific_accessory_builder ::
  "mac_fn \<Rightarrow> OriginCommandType \<Rightarrow> int \<Rightarrow> int \<Rightarrow> byte list
     \<Rightarrow> error + ChannelOriginCommandToken" where
  "specific_accessory_builder mac type' accessory_nexus_id controller_command_count
       controller_sym_key =
     (if length controller_sym_key \<noteq> 16 then Inl AssertionError
      else
        let nexus_authority_id = drop_bit 32 (accessory_nexus_id AND 0xFFFF00000000);
            nexus_device_id = accessory_nexus_id AND 0xFFFFFFFF
        in case pack [(32, controller_command_count),
                      (8, OriginCommandType_value type'),
                      (16, nexus_authority_id),
                      (32, nexus_device_id)] of
             Inl e \<Rightarrow> Inl e
           | Inr packed_target_inputs \<Rightarrow>
               if length packed_target_inputs \<noteq> 11 then Inl AssertionError
               else Inr (SpecificLinkedAccessoryToken_init type' accessory_nexus_id
                           (mac controller_sym_key packed_target_inputs)))"

definition unlink_specific_accessory ::
  "mac_fn \<Rightarrow> int \<Rightarrow> int \<Rightarrow> byte list \<Rightarrow> error + ChannelOriginCommandToken" where
  "unlink_specific_accessory mac accessory_nexus_id controller_command_count
       controller_sym_key =
     specific_accessory_builder mac UNLINK_ACCESSORY accessory_nexus_id
       controller_command_count controller_sym_key"

definition unlock_specific_accessory ::
  "mac_fn \<Rightarrow> int \<Rightarrow> int \<Rightarrow> byte list \<Rightarrow> error + ChannelOriginCommandToken" where
  "unlock_specific_accessory mac accessory_nexus_id controller_command_count
       controller_sym_key =
     specific_accessory_builder mac UNLOCK_ACCESSORY accessory_nexus_id
       controller_command_count controller_sym_key"

section \<open>Linking an accessory\<close>

definition LinkCommandToken_init ::
  "OriginCommandType \<Rightarrow> string \<Rightarrow> string \<Rightarrow> ChannelOriginCommandToken" where
  "LinkCommandToken_init type' body_digits auth_digits =
     \<lparr>type_code = OriginCommandType_value type', body = body_digits, auth = auth_digits\<rparr>"

definition challenge_mode_3 ::
  "mac_fn \<Rightarrow> int \<Rightarrow> int \<Rightarrow> byte list \<Rightarrow> byte list
     \<Rightarrow> error + ChannelOriginCommandToken" where
  "challenge_mode_3 mac controller_command_count accessory_command_count
       accessory_sym_key controller_sym_key =
     (let command_type = LINK_ACCESSORY_MODE_3 in
      if length accessory_sym_key \<noteq> 16 then Inl AssertionError
      else if length controller_sym_key \<noteq> 16 then Inl AssertionError
      else
        case pack [(32, accessory_command_count)] of
          Inl e \<Rightarrow> Inl e
        | Inr packed_target_inputs \<Rightarrow>
            if length packed_target_inputs \<noteq> 4 then Inl AssertionError
            else
              let accessory_auth = mac accessory_sym_key packed_target_inputs;
                  accessory_auth_digits = digits_from_siphash accessory_auth 6
              in (case py_int accessory_auth_digits of
                    Inl e \<Rightarrow> Inl e
                  | Inr challenge_digits_int \<Rightarrow>
                      (case pack [(32, controller_command_count),
                                  (8, OriginCommandType_value command_type),
                                  (32, challenge_digits_int)] of
                         Inl e \<Rightarrow> Inl e
                       | Inr packed_auth_inputs \<Rightarrow>
                           if length packed_auth_inputs \<noteq> 9 then Inl AssertionError
                           else
                             let auth_hash = mac controller_sym_key packed_auth_inputs
                             in Inr (LinkCommandToken_init command_type
                                       accessory_auth_digits
                                       (digits_from_siphash auth_hash 6)))))"

section \<open>SipHash-2-4\<close>

text \<open>
  The keyed hash the module uses, \<open>siphash.SipHash_2_4\<close>, follows the published
  SipHash-2-4 algorithm: two compression rounds for each 8-byte little-endian block, a last
  block that carries the message length in its top byte, and four finalisation rounds. It
  serves as the concrete hash wherever a builder is run on concrete inputs.
\<close>

type_synonym sip_state = "64 word \<times> 64 word \<times> 64 word \<times> 64 word"

fun le_bytes_to_word :: "byte list \<Rightarrow> 64 word" where
  "le_bytes_to_word [] = 0"
| "le_bytes_to_word (b # bs) = push_bit 8 (le_bytes_to_word bs) OR ucast b"

definition rotl64 :: "nat \<Rightarrow> 64 word \<Rightarrow> 64 word" where
  "rotl64 b x = push_bit b x OR drop_bit (64 - b) x"

definition sip_round :: "sip_state \<Rightarrow> sip_state" where
  "sip_round s = (case s of (v0, v1, v2, v3) \<Rightarrow>
     let v0 = v0 + v1; v1 = rotl64 13 v1; v1 = v1 XOR v0; v0 = rotl64 32 v0;
         v2 = v2 + v3; v3 = rotl64 16 v3; v3 = v3 XOR v2;
         v0 = v0 + v3; v3 = rotl64 21 v3; v3 = v3 XOR v0;
         v2 = v2 + v1; v1 = rotl64 17 v1; v1 = v1 XOR v2; v2 = rotl64 32 v2
     in (v0, v1, v2, v3))"

definition sip_compress :: "sip_state \<Rightarrow> 64 word \<Rightarrow> sip_state" where
  "sip_compress s m = (case s of (v0, v1, v2, v3) \<Rightarrow>
     (case sip_round (sip_round (v0, v1, v2, v3 XOR m)) of
        (w0, w1, w2, w3) \<Rightarrow> (w0 XOR m, w1, w2, w3)))"

fun sip_blocks :: "sip_state \<Rightarrow> nat \<Rightarrow> byte list \<Rightarrow> sip_state" where
  "sip_blocks s msg_len (b0 # b1 # b2 # b3 # b4 # b5 # b6 # b7 # rest) =
     sip_blocks (sip_compress s (le_bytes_to_word [b0, b1, b2, b3, b4, b5, b6, b7]))
       msg_len rest"
| "sip_blocks s msg_len tail_bytes =
     sip_compress s (le_bytes_to_word tail_bytes OR push_bit 56 (word_of_nat msg_len))"

definition SipHash_2_4 :: mac_fn where
  "SipHash_2_4 key msg =
     (let k0 = le_bytes_to_word (take 8 key);
          k1 = le_bytes_to_word (take 8 (drop 8 key));
          s = (k0 XOR 0x736f6d6570736575, k1 XOR 0x646f72616e646f6d,
               k0 XOR 0x6c7967656e657261, k1 XOR 0x7465646279746573)
      in case sip_blocks s (length msg) msg of
           (v0, v1, v2, v3) \<Rightarrow>
             (case sip_round (sip_round (sip_round (sip_round (v0, v1, v2 XOR 0xff, v3)))) of
                (w0, w1, w2, w3) \<Rightarrow> w0 XOR w1 XOR w2 XOR w3))"

section \<open>Reference notions for the properties\<close>

text \<open>
  The \<open>n\<close> least-significant decimal digits of a number, most significant of them first:
  the digits of \<open>v mod 10 ^ n\<close>, written with exactly \<open>n\<close> characters.
\<close>

fun least_significant_digits :: "nat \<Rightarrow> nat \<Rightarrow> string" where
  "least_significant_digits 0 v = []"
| "least_significant_digits (Suc n) v =
     least_significant_digits n (v div 10) @ [digit_char (v mod 10)]"

text \<open>The decimal representation of a number, zero-padded on the left to a width.\<close>

definition zero_padded :: "nat \<Rightarrow> nat \<Rightarrow> string" where
  "zero_padded w v = replicate (w - length (str_nat v)) CHR ''0'' @ str_nat v"

text \<open>The low 32 bits of a 64-bit tag, as a number.\<close>

definition low32 :: "64 word \<Rightarrow> nat" where
  "low32 tag = unat tag mod 2 ^ 32"

text \<open>The four bytes of an unsigned 32-bit field, least significant first.\<close>

definition le_uint32 :: "int \<Rightarrow> byte list" where
  "le_uint32 v = [word_of_int v, word_of_int (v div 256), word_of_int (v div 65536),
                  word_of_int (v div 16777216)]"

text \<open>The two bytes of an unsigned 16-bit field, least significant first.\<close>

definition le_uint16 :: "int \<Rightarrow> byte list" where
  "le_uint16 v = [word_of_int v, word_of_int (v div 256)]"

text \<open>
  Modelled from the spec: the transform \<open>full_obscure\<close> of
  \<open>nexus_keycode.protocols.utils\<close> is not part of the sources at hand. Its contract is the
  one the specification gives: called on a string and a count within its length, it returns a
  string of the same length that differs at most in the first \<open>count\<close> characters, and it
  turns digit strings into digit strings.
\<close>

definition obscure_contract :: "(string \<Rightarrow> nat \<Rightarrow> string) \<Rightarrow> bool" where
  "obscure_contract f =
     (\<forall>s n. n \<le> length s \<longrightarrow>
        length (f s n) = length s \<and> drop n (f s n) = drop n s
        \<and> (list_all is_digit s \<longrightarrow> list_all is_digit (f s n)))"

text \<open>
  One transform that meets the contract, for running \<open>to_digits\<close> on concrete tokens: it
  replaces every digit \<open>d\<close> of the prefix by \<open>(d + 7) mod 10\<close>.
\<close>

definition shift_digit :: "char \<Rightarrow> char" where
  "shift_digit c = digit_char ((nat (digit_value c) + 7) mod 10)"

definition shift_obscure :: "string \<Rightarrow> nat \<Rightarrow> string" where
  "shift_obscure s n = map shift_digit (take n s) @ drop n s"

text \<open>
  The shape every builder gives its tokens: a one-digit type code, a body of a fixed number
  of decimal digits, and six decimal digits of auth.
\<close>

definition well_formed_token :: "ChannelOriginCommandToken \<Rightarrow> nat \<Rightarrow> bool" where
  "well_formed_token tok body_width =
     (0 \<le> type_code tok \<and> type_code tok < 10
      \<and> length (body tok) = body_width \<and> list_all is_digit (body tok)
      \<and> length (auth tok) = 6 \<and> list_all is_digit (auth tok))"

section \<open>Decimal formatting: basic facts\<close>

lemma is_digit_digit_char: "d < 10 \<Longrightarrow> is_digit (digit_char d)"
  by (simp add: is_digit_def digit_char_def)

lemma digit_value_digit_char: "d < 10 \<Longrightarrow> digit_value (digit_char d) = int d"
  by (simp add: digit_value_def digit_char_def)

lemma digit_char_0: "digit_char 0 = CHR ''0''"
  unfolding digit_char_def by code_simp

lemma length_lsd: "length (least_significant_digits n v) = n"
  by (induction n arbitrary: v) simp_all

lemma lsd_all_digits: "list_all is_digit (least_significant_digits n v)"
  by (induction n arbitrary: v) (simp_all add: is_digit_digit_char)

lemma lsd_zero: "least_significant_digits n 0 = replicate n CHR ''0''"
  by (induction n) (simp_all add: digit_char_0 replicate_append_same)

lemma str_nat_small: "n < 10 \<Longrightarrow> str_nat n = [digit_char n]"
  by (simp add: str_nat.simps)

lemma str_nat_big: "10 \<le> n \<Longrightarrow> str_nat n = str_nat (n div 10) @ [digit_char (n mod 10)]"
  by (subst str_nat.simps) simp

lemma length_str_nat_pos: "0 < length (str_nat n)"
  by (subst str_nat.simps) simp

lemma str_nat_all_digits: "list_all is_digit (str_nat n)"
proof (induction n rule: str_nat.induct)
  case (1 n)
  show ?case
  proof (cases "n < 10")
    case True
    then show ?thesis by (simp add: str_nat_small is_digit_digit_char)
  next
    case False
    with 1 show ?thesis by (simp add: str_nat_big is_digit_digit_char)
  qed
qed

lemma format_0d_nonneg: "0 \<le> i \<Longrightarrow> format_0d w i = zero_padded w (nat i)"
  by (simp add: format_0d_def zero_padded_def)

lemma length_zero_padded: "length (zero_padded w v) = max w (length (str_nat v))"
  by (simp add: zero_padded_def)

lemma zero_padded_Suc_big:
  "10 \<le> v \<Longrightarrow> zero_padded (Suc w) v = zero_padded w (v div 10) @ [digit_char (v mod 10)]"
  by (simp add: zero_padded_def str_nat_big)

lemma zero_padded_Suc_small:
  "v < 10 \<Longrightarrow> zero_padded (Suc w) v = replicate w CHR ''0'' @ [digit_char v]"
  by (simp add: zero_padded_def str_nat_small)

text \<open>The last \<open>n\<close> characters of a padding to any width \<open>w \<ge> n\<close> are the \<open>n\<close> low digits.\<close>

lemma drop_zero_padded:
  "n \<le> w \<Longrightarrow>
   drop (length (zero_padded w v) - n) (zero_padded w v) = least_significant_digits n v"
proof (induction n arbitrary: v w)
  case 0
  then show ?case by simp
next
  case (Suc n)
  then obtain w' where w: "w = Suc w'" and le: "n \<le> w'"
    by (cases w) simp_all
  show ?case
  proof (cases "v < 10")
    case True
    then have "v div 10 = 0" "v mod 10 = v" by simp_all
    moreover have "drop (w' - n) (replicate w' CHR ''0'') = replicate n CHR ''0''"
      using le by simp
    ultimately show ?thesis
      using True le by (simp add: w zero_padded_Suc_small lsd_zero)
  next
    case False
    then have big: "10 \<le> v" by simp
    let ?p = "zero_padded w' (v div 10)"
    have short: "length ?p - n \<le> length ?p" by simp
    have "drop (length (zero_padded w v) - Suc n) (zero_padded w v)
            = drop (length ?p - n) (?p @ [digit_char (v mod 10)])"
      by (simp add: w zero_padded_Suc_big [OF big])
    also have "\<dots> = drop (length ?p - n) ?p @ [digit_char (v mod 10)]"
      using short by simp
    also have "\<dots> = least_significant_digits (Suc n) v"
      by (simp add: Suc.IH [OF le])
    finally show ?thesis .
  qed
qed

lemma int_and_low32: "(x :: int) AND 0xffffffff = x mod 2 ^ 32"
proof -
  have "(0xffffffff :: int) = mask 32" by (simp add: mask_eq_exp_minus_1)
  then have "x AND 0xffffffff = take_bit 32 x" by (simp only: take_bit_eq_mask)
  then show ?thesis by (simp only: take_bit_eq_mod)
qed

lemma uint_low32: "uint ((h :: 64 word) AND 0xffffffff) = uint h mod 2 ^ 32"
proof -
  have "uint (h AND 0xffffffff) = uint h AND uint (0xffffffff :: 64 word)"
    by (simp only: uint_and)
  also have "uint (0xffffffff :: 64 word) = 0xffffffff" by simp
  finally show ?thesis by (simp only: int_and_low32)
qed

lemma nat_uint_low32: "nat (uint ((h :: 64 word) AND 0xffffffff)) = low32 h"
proof -
  have "nat (uint (h AND 0xffffffff)) = nat (uint h mod 2 ^ 32)"
    by (simp only: uint_low32)
  also have "\<dots> = nat (uint h) mod nat (2 ^ 32)"
    by (rule nat_mod_distrib) simp_all
  also have "\<dots> = unat h mod 2 ^ 32"
    by simp
  finally show ?thesis by (simp only: low32_def)
qed

lemma digits_from_siphash_padded:
  "1 \<le> n \<Longrightarrow>
   digits_from_siphash h n =
     drop (length (zero_padded n (low32 h)) - n) (zero_padded n (low32 h))"
proof -
  assume n: "1 \<le> n"
  let ?v = "uint (h AND 0xffffffff)"
  have nonneg: "0 \<le> ?v" by simp
  have "digits_from_siphash h n = slice_last n (zero_padded n (nat ?v))"
    by (simp only: digits_from_siphash_def format_0d_nonneg [OF nonneg])
  also have "\<dots> = drop (length (zero_padded n (nat ?v)) - n) (zero_padded n (nat ?v))"
    using n by (simp add: slice_last_def)
  finally show ?thesis by (simp only: nat_uint_low32)
qed

lemma digits_from_siphash_lsd:
  "1 \<le> n \<Longrightarrow> digits_from_siphash h n = least_significant_digits n (low32 h)"
  by (simp only: digits_from_siphash_padded drop_zero_padded [OF order_refl])

section \<open>Canonical packing: basic facts\<close>

lemma uintle_overflow: "2 ^ len \<le> v \<Longrightarrow> uintle len v = Inl CreationError"
  by (simp add: uintle_def)

lemma uintle_negative: "v < 0 \<Longrightarrow> uintle len v = Inl CreationError"
  by (simp add: uintle_def)

lemma upt_4: "[0..<4] = [0, 1, 2, 3]"
  by (simp add: upt_rec)

lemma upt_2: "[0..<2] = [0, 1]"
  by (simp add: upt_rec)

lemma uintle_32: "0 \<le> v \<Longrightarrow> v < 2 ^ 32 \<Longrightarrow> uintle 32 v = Inr (le_uint32 v)"
  by (simp add: uintle_def le_uint32_def upt_4 drop_bit_eq_div)

lemma uintle_16: "0 \<le> v \<Longrightarrow> v < 2 ^ 16 \<Longrightarrow> uintle 16 v = Inr (le_uint16 v)"
  by (simp add: uintle_def le_uint16_def upt_2 drop_bit_eq_div)

lemma uintle_8: "0 \<le> v \<Longrightarrow> v < 2 ^ 8 \<Longrightarrow> uintle 8 v = Inr [word_of_int v]"
  by (simp add: uintle_def)

lemma length_le_uint32: "length (le_uint32 v) = 4"
  by (simp add: le_uint32_def)

lemma length_le_uint16: "length (le_uint16 v) = 2"
  by (simp add: le_uint16_def)

lemma pack_counter_type_value:
  assumes "0 \<le> c" "c < 2 ^ 32" "0 \<le> t" "t < 2 ^ 8" "0 \<le> x" "x < 2 ^ 32"
  shows "pack [(32, c), (8, t), (32, x)] = Inr (le_uint32 c @ [word_of_int t] @ le_uint32 x)"
  using assms by (simp add: uintle_32 uintle_8)

lemma pack_first_overflow: "2 ^ len \<le> v \<Longrightarrow> pack ((len, v) # rest_fields) = Inl CreationError"
  by (simp add: uintle_overflow)

lemma GenericControllerActionType_value_range:
  "0 \<le> GenericControllerActionType_value a \<and> GenericControllerActionType_value a < 2"
  by (cases a) simp_all

lemma OriginCommandType_value_range:
  "0 \<le> OriginCommandType_value t \<and> OriginCommandType_value t < 10"
  by (cases t) simp_all

lemma str_int_digit: "0 \<le> i \<Longrightarrow> i < 10 \<Longrightarrow> str_int i = [digit_char (nat i)]"
  by (simp add: str_int_def str_nat_small)

lemma is_digit_zero: "is_digit CHR ''0''"
  by (simp add: is_digit_def)

lemma replicate_zero_all_digits: "list_all is_digit (replicate k CHR ''0'')"
  by (induction k) (simp_all add: is_digit_zero)

lemma zero_padded_all_digits: "list_all is_digit (zero_padded w v)"
  by (simp add: zero_padded_def str_nat_all_digits replicate_zero_all_digits)

section \<open>The digits of a tag\<close>

text \<open>
  Claim C3. For every 64-bit tag and every \<open>n \<ge> 1\<close>, \<open>digits_from_siphash\<close> returns the
  last \<open>n\<close> characters of the decimal representation of the tag's low 32 bits zero-padded
  to any width \<open>w \<ge> n\<close>; this is the string of the \<open>n\<close> least-significant decimal digits
  of the low 32 bits, and it always has exactly \<open>n\<close> characters, all decimal digits.
\<close>

theorem digits_from_siphash_least_significant:
  assumes "1 \<le> n" and "n \<le> w"
  shows "digits_from_siphash tag n =
           drop (length (zero_padded w (low32 tag)) - n) (zero_padded w (low32 tag))
         \<and> digits_from_siphash tag n = least_significant_digits n (low32 tag)
         \<and> length (digits_from_siphash tag n) = n
         \<and> list_all is_digit (digits_from_siphash tag n)"
  using assms
  by (simp add: digits_from_siphash_lsd drop_zero_padded length_lsd lsd_all_digits)

theorem digits_from_siphash_least_significant_witness:
  "(1::nat) \<le> 6 \<and> (6::nat) \<le> 10
   \<and> digits_from_siphash 0x0123456789ABCDEF 6 =
         drop (length (zero_padded 10 (low32 0x0123456789ABCDEF)) - 6)
           (zero_padded 10 (low32 0x0123456789ABCDEF))
   \<and> digits_from_siphash 0x0123456789ABCDEF 6 =
         least_significant_digits 6 (low32 0x0123456789ABCDEF)
   \<and> length (digits_from_siphash 0x0123456789ABCDEF 6) = 6
   \<and> list_all is_digit (digits_from_siphash 0x0123456789ABCDEF 6)"
proof -
  have n: "(1::nat) \<le> 6" and w: "(6::nat) \<le> 10" by simp_all
  from n w digits_from_siphash_least_significant [OF n w, of "0x0123456789ABCDEF"]
  show ?thesis by blast
qed

section \<open>Identifier masks\<close>

lemma device_id_low32: "(x :: int) AND 0xFFFFFFFF = x mod 2 ^ 32"
  by (rule int_and_low32)

lemma authority_id_bits: "drop_bit 32 ((x :: int) AND 0xFFFF00000000) = x div 2 ^ 32 mod 2 ^ 16"
proof -
  have m: "(0xFFFF00000000 :: int) = push_bit 32 (mask 16)"
    by (simp add: mask_eq_exp_minus_1 push_bit_eq_mult)
  have "drop_bit 32 (x AND push_bit 32 (mask 16)) = drop_bit 32 x AND mask 16"
    by (simp add: drop_bit_push_bit)
  also have "\<dots> = take_bit 16 (drop_bit 32 x)"
    by (simp only: take_bit_eq_mask)
  also have "\<dots> = x div 2 ^ 32 mod 2 ^ 16"
    by (simp only: take_bit_eq_mod drop_bit_eq_div)
  finally show ?thesis by (simp only: m)
qed

lemma high_bits_device: "(x + k * 2 ^ 48) mod 2 ^ 32 = x mod 2 ^ (32::nat)" for x k :: int
proof -
  have "k * 2 ^ 48 = (k * 2 ^ 16) * 2 ^ 32" by simp
  then show ?thesis by (simp only: mod_mult_self1)
qed

lemma high_bits_authority:
  "(x + k * 2 ^ 48) div 2 ^ 32 mod 2 ^ 16 = x div 2 ^ 32 mod 2 ^ (16::nat)" for x k :: int
proof -
  have "k * 2 ^ 48 = (k * 2 ^ 16) * 2 ^ 32" by simp
  then have "(x + k * 2 ^ 48) div 2 ^ 32 = x div 2 ^ 32 + k * 2 ^ 16"
    by (simp only: div_mult_self1 [of "2 ^ 32" x "k * 2 ^ 16"]) simp
  then show ?thesis by (simp only: mod_mult_self1)
qed

section \<open>What each builder returns\<close>

lemma generic_builder_result:
  assumes "length controller_sym_key = 16"
    and "0 \<le> controller_command_count" and "controller_command_count < 2 ^ 32"
  shows "generic_controller_action_builder mac action controller_command_count
           controller_sym_key =
         Inr \<lparr>type_code = 0,
              body = format_0d 2 (GenericControllerActionType_value action),
              auth = digits_from_siphash
                       (mac controller_sym_key
                          (le_uint32 controller_command_count @ [0]
                             @ le_uint32 (GenericControllerActionType_value action))) 6\<rparr>"
proof -
  let ?v = "GenericControllerActionType_value action"
  have v: "0 \<le> ?v" "?v < 2 ^ 32"
    using GenericControllerActionType_value_range [of action] by simp_all
  have p: "pack [(32, controller_command_count), (8, 0), (32, ?v)] =
             Inr (le_uint32 controller_command_count @ [0] @ le_uint32 ?v)"
    using pack_counter_type_value [OF assms(2,3) _ _ v, of 0] by simp
  show ?thesis
    using assms(1)
    by (simp add: generic_controller_action_builder_def Let_def p length_le_uint32
        GenericControllerActionToken_init_def del: pack.simps)
qed

lemma specific_builder_result:
  assumes "length controller_sym_key = 16"
    and "0 \<le> controller_command_count" and "controller_command_count < 2 ^ 32"
  shows "specific_accessory_builder mac t accessory_nexus_id controller_command_count
           controller_sym_key =
         Inr \<lparr>type_code = OriginCommandType_value t,
              body = format_0d 1 (accessory_nexus_id mod 2 ^ 32 mod 10),
              auth = digits_from_siphash
                       (mac controller_sym_key
                          (le_uint32 controller_command_count
                             @ [word_of_int (OriginCommandType_value t)]
                             @ le_uint16 (accessory_nexus_id div 2 ^ 32 mod 2 ^ 16)
                             @ le_uint32 (accessory_nexus_id mod 2 ^ 32))) 6\<rparr>"
proof -
  let ?a = "accessory_nexus_id div 2 ^ 32 mod 2 ^ 16"
  let ?d = "accessory_nexus_id mod 2 ^ 32"
  have t: "0 \<le> OriginCommandType_value t" "OriginCommandType_value t < 2 ^ 8"
    using OriginCommandType_value_range [of t] by simp_all
  have a: "uintle 16 ?a = Inr (le_uint16 ?a)" by (rule uintle_16) simp_all
  have d: "uintle 32 ?d = Inr (le_uint32 ?d)" by (rule uintle_32) simp_all
  have p: "pack [(32, controller_command_count), (8, OriginCommandType_value t),
                 (16, ?a), (32, ?d)] =
             Inr (le_uint32 controller_command_count @ [word_of_int (OriginCommandType_value t)]
                    @ le_uint16 ?a @ le_uint32 ?d)"
    using a d by (simp add: uintle_32 [OF assms(2,3)] uintle_8 [OF t])
  have unfolded:
    "specific_accessory_builder mac t accessory_nexus_id controller_command_count
       controller_sym_key =
     (if length controller_sym_key \<noteq> 16 then Inl AssertionError
      else case pack [(32, controller_command_count), (8, OriginCommandType_value t),
                      (16, ?a), (32, ?d)] of
             Inl e \<Rightarrow> Inl e
           | Inr packed_target_inputs \<Rightarrow>
               if length packed_target_inputs \<noteq> 11 then Inl AssertionError
               else Inr (SpecificLinkedAccessoryToken_init t accessory_nexus_id
                           (mac controller_sym_key packed_target_inputs)))"
    by (simp only: specific_accessory_builder_def Let_def authority_id_bits device_id_low32)
  have init: "SpecificLinkedAccessoryToken_init t accessory_nexus_id h =
                \<lparr>type_code = OriginCommandType_value t, body = format_0d 1 (?d mod 10),
                 auth = digits_from_siphash h 6\<rparr>" for h
    by (simp only: SpecificLinkedAccessoryToken_init_def Let_def device_id_low32)
  show ?thesis
    using assms(1)
    by (simp only: unfolded p init) (simp add: length_le_uint32 length_le_uint16)
qed

section \<open>Reading digits back as a number\<close>

lemma mod_power_Suc_digits: "v mod 10 ^ Suc n = 10 * (v div 10 mod 10 ^ n) + v mod 10" for v :: nat
  by (simp add: mod_mult2_eq)

lemma foldl_least_significant_digits:
  "foldl (\<lambda>acc c. 10 * acc + digit_value c) a (least_significant_digits n v)
     = a * 10 ^ n + int (v mod 10 ^ n)"
proof (induction n arbitrary: v a)
  case 0
  then show ?case by simp
next
  case (Suc n)
  have d: "digit_value (digit_char (v mod 10)) = int (v mod 10)"
    by (rule digit_value_digit_char) simp
  have "foldl (\<lambda>acc c. 10 * acc + digit_value c) a (least_significant_digits (Suc n) v)
          = 10 * (a * 10 ^ n + int (v div 10 mod 10 ^ n)) + int (v mod 10)"
    by (simp add: Suc.IH d)
  also have "\<dots> = a * 10 ^ Suc n + int (10 * (v div 10 mod 10 ^ n) + v mod 10)"
    by (simp add: algebra_simps)
  finally show ?case by (simp only: mod_power_Suc_digits)
qed

lemma py_int_least_significant_digits:
  assumes "1 \<le> n"
  shows "py_int (least_significant_digits n v) = Inr (int (v mod 10 ^ n))"
proof -
  have "length (least_significant_digits n v) \<noteq> 0"
    using assms by (simp add: length_lsd)
  then have "least_significant_digits n v \<noteq> []" by (simp only: length_0_conv not_False_eq_True)
  then show ?thesis
    by (simp add: py_int_def lsd_all_digits foldl_least_significant_digits)
qed

lemma link_builder_result:
  assumes "length accessory_sym_key = 16" and "length controller_sym_key = 16"
    and "0 \<le> accessory_command_count" and "accessory_command_count < 2 ^ 32"
    and "0 \<le> controller_command_count" and "controller_command_count < 2 ^ 32"
  shows "challenge_mode_3 mac controller_command_count accessory_command_count
           accessory_sym_key controller_sym_key =
         Inr \<lparr>type_code = 9,
              body = least_significant_digits 6
                       (low32 (mac accessory_sym_key (le_uint32 accessory_command_count))),
              auth = least_significant_digits 6
                       (low32 (mac controller_sym_key
                          (le_uint32 controller_command_count @ [9]
                             @ le_uint32 (int (low32 (mac accessory_sym_key
                                 (le_uint32 accessory_command_count)) mod 10 ^ 6)))))\<rparr>"
proof -
  let ?challenge = "low32 (mac accessory_sym_key (le_uint32 accessory_command_count)) mod 10 ^ 6"
  have p1: "pack [(32, accessory_command_count)] = Inr (le_uint32 accessory_command_count)"
    by (simp add: uintle_32 [OF assms(3,4)])
  have c: "0 \<le> int ?challenge" "int ?challenge < 2 ^ 32"
  proof -
    show "0 \<le> int ?challenge" by simp
    have "?challenge < 10 ^ 6" by simp
    then show "int ?challenge < 2 ^ 32" by simp
  qed
  have p2: "pack [(32, controller_command_count), (8, 9), (32, int ?challenge)] =
              Inr (le_uint32 controller_command_count @ [9] @ le_uint32 (int ?challenge))"
    using pack_counter_type_value [OF assms(5,6) _ _ c, of 9] by simp
  have i: "py_int (least_significant_digits 6
             (low32 (mac accessory_sym_key (le_uint32 accessory_command_count))))
           = Inr (int ?challenge)"
    by (rule py_int_least_significant_digits) simp
  have six: "digits_from_siphash h 6 = least_significant_digits 6 (low32 h)" for h
    by (rule digits_from_siphash_lsd) simp
  show ?thesis
    using assms(1,2) i p2
    by (simp only: challenge_mode_3_def Let_def six p1 OriginCommandType_value.simps)
       (simp add: length_le_uint32 LinkCommandToken_init_def del: pack.simps)
qed

section \<open>Small evaluations\<close>

lemma digit_char_1: "digit_char 1 = CHR ''1''"
  unfolding digit_char_def by code_simp

lemma digit_char_2: "digit_char 2 = CHR ''2''"
  unfolding digit_char_def by code_simp

lemma digit_char_6: "digit_char 6 = CHR ''6''"
  unfolding digit_char_def by code_simp

lemma digit_char_9: "digit_char 9 = CHR ''9''"
  unfolding digit_char_def by code_simp

lemma str_int_0: "str_int 0 = ''0''"
  by (simp add: str_int_digit digit_char_0)

lemma str_int_9: "str_int 9 = ''9''"
  by (simp add: str_int_digit digit_char_9)

lemma zero_padded_2_0: "zero_padded 2 0 = ''00''"
  by (simp add: zero_padded_def str_nat_small digit_char_0)

lemma digit_char_Suc_0: "digit_char (Suc 0) = CHR ''1''"
  using digit_char_1 by simp

lemma zero_padded_2_1: "zero_padded 2 (Suc 0) = ''01''"
  by (simp add: zero_padded_def str_nat_small digit_char_Suc_0)

lemma format_0d_digit: "0 \<le> i \<Longrightarrow> i < 10 \<Longrightarrow> format_0d 1 i = [digit_char (nat i)]"
  by (simp add: format_0d_def str_nat_small)

lemma le_uint32_0: "le_uint32 0 = [0, 0, 0, 0]"
  by (simp add: le_uint32_def)

lemma le_uint32_1: "le_uint32 1 = [1, 0, 0, 0]"
  by (simp add: le_uint32_def)

lemma le_uint16_0: "le_uint16 0 = [0, 0]"
  by (simp add: le_uint16_def)

lemma six_digits: "digits_from_siphash h 6 = least_significant_digits 6 (low32 h)"
  by (rule digits_from_siphash_lsd) simp

section \<open>Generic controller action tokens\<close>

text \<open>
  Claim C1. For every 16-byte controller key, every unsigned 32-bit
  \<open>controller_command_count\<close> and each generic action (unlink-all, code 0; unlock-all,
  code 1), the builder returns a token whose type digit is \<open>0\<close>, whose body is the
  two-digit zero-padded action code, and whose auth is the 6 least-significant decimal digits
  of the low 32 bits of the hash of the key and the 9-byte little-endian packing
  \<open>[uint32 count][uint8 0][uint32 action code]\<close>.
\<close>

theorem generic_controller_action_token:
  assumes "length controller_sym_key = 16"
    and "0 \<le> controller_command_count" and "controller_command_count < 2 ^ 32"
  shows "\<exists>tok.
           generic_controller_action_builder mac action controller_command_count
             controller_sym_key = Inr tok
           \<and> str_int (type_code tok) = ''0''
           \<and> body tok = zero_padded 2 (nat (GenericControllerActionType_value action))
           \<and> body tok = (case action of UNLINK_ALL_ACCESSORIES \<Rightarrow> ''00''
                                       | UNLOCK_ALL_ACCESSORIES \<Rightarrow> ''01'')
           \<and> auth tok = least_significant_digits 6
                 (low32 (mac controller_sym_key
                    (le_uint32 controller_command_count @ [0]
                       @ le_uint32 (GenericControllerActionType_value action))))
           \<and> length (le_uint32 controller_command_count @ [0 :: byte]
                       @ le_uint32 (GenericControllerActionType_value action)) = 9"
proof -
  have b: "format_0d 2 (GenericControllerActionType_value action) =
             zero_padded 2 (nat (GenericControllerActionType_value action))"
    by (rule format_0d_nonneg) (simp add: GenericControllerActionType_value_range)
  have c: "zero_padded 2 (nat (GenericControllerActionType_value action)) =
             (case action of UNLINK_ALL_ACCESSORIES \<Rightarrow> ''00''
                           | UNLOCK_ALL_ACCESSORIES \<Rightarrow> ''01'')"
    by (cases action) (simp_all add: zero_padded_2_0 zero_padded_2_1)
  show ?thesis
    using c
    by (simp add: generic_builder_result [OF assms] b six_digits str_int_0 length_le_uint32)
qed

theorem generic_controller_action_token_witness:
  "length (replicate 16 (0 :: byte)) = 16 \<and> (0 :: int) \<le> 1 \<and> (1 :: int) < 2 ^ 32
   \<and> (\<exists>tok.
         generic_controller_action_builder SipHash_2_4 UNLOCK_ALL_ACCESSORIES 1
           (replicate 16 0) = Inr tok
         \<and> str_int (type_code tok) = ''0''
         \<and> body tok = zero_padded 2 (nat (GenericControllerActionType_value UNLOCK_ALL_ACCESSORIES))
         \<and> body tok = (case UNLOCK_ALL_ACCESSORIES of UNLINK_ALL_ACCESSORIES \<Rightarrow> ''00''
                                     | UNLOCK_ALL_ACCESSORIES \<Rightarrow> ''01'')
         \<and> auth tok = least_significant_digits 6
               (low32 (SipHash_2_4 (replicate 16 0)
                  (le_uint32 1 @ [0]
                     @ le_uint32 (GenericControllerActionType_value UNLOCK_ALL_ACCESSORIES))))
         \<and> length (le_uint32 1 @ [0 :: byte]
                     @ le_uint32 (GenericControllerActionType_value UNLOCK_ALL_ACCESSORIES)) = 9)"
proof -
  have k: "length (replicate 16 (0 :: byte)) = 16" by simp
  have lo: "(0 :: int) \<le> 1" and hi: "(1 :: int) < 2 ^ 32" by simp_all
  from k lo hi
    generic_controller_action_token [OF k lo hi, of SipHash_2_4 UNLOCK_ALL_ACCESSORIES]
  show ?thesis by blast
qed

section \<open>Link-accessory tokens\<close>

text \<open>
  Claim C2. For every pair of 16-byte keys and every pair of unsigned 32-bit counters, the
  link builder returns a token with type digit \<open>9\<close>; its body is the 6 least-significant
  decimal digits of the low 32 bits of the hash of the accessory key and the 4-byte
  little-endian accessory counter; its auth is the 6 least-significant decimal digits of the
  low 32 bits of the hash of the controller key and the 9-byte packing
  \<open>[uint32 controller count][uint8 9][uint32 body digits read as an integer]\<close>.
\<close>

theorem link_accessory_token:
  assumes "length accessory_sym_key = 16" and "length controller_sym_key = 16"
    and "0 \<le> accessory_command_count" and "accessory_command_count < 2 ^ 32"
    and "0 \<le> controller_command_count" and "controller_command_count < 2 ^ 32"
  shows "\<exists>tok challenge.
           challenge_mode_3 mac controller_command_count accessory_command_count
             accessory_sym_key controller_sym_key = Inr tok
           \<and> str_int (type_code tok) = ''9''
           \<and> body tok = least_significant_digits 6
                 (low32 (mac accessory_sym_key (le_uint32 accessory_command_count)))
           \<and> length (le_uint32 accessory_command_count) = 4
           \<and> py_int (body tok) = Inr challenge
           \<and> auth tok = least_significant_digits 6
                 (low32 (mac controller_sym_key
                    (le_uint32 controller_command_count @ [9] @ le_uint32 challenge)))
           \<and> length (le_uint32 controller_command_count @ [9 :: byte] @ le_uint32 challenge) = 9"
proof -
  have i: "py_int (least_significant_digits 6
             (low32 (mac accessory_sym_key (le_uint32 accessory_command_count))))
           = Inr (int (low32 (mac accessory_sym_key (le_uint32 accessory_command_count))
                    mod 10 ^ 6))"
    by (rule py_int_least_significant_digits) simp
  show ?thesis
    using i by (simp add: link_builder_result [OF assms] str_int_9 length_le_uint32)
qed

theorem link_accessory_token_witness:
  "length (replicate 16 (1 :: byte)) = 16 \<and> length (replicate 16 (0 :: byte)) = 16
   \<and> (0 :: int) \<le> 7 \<and> (7 :: int) < 2 ^ 32 \<and> (0 :: int) \<le> 1 \<and> (1 :: int) < 2 ^ 32
   \<and> (\<exists>tok challenge.
         challenge_mode_3 SipHash_2_4 1 7 (replicate 16 1) (replicate 16 0) = Inr tok
         \<and> str_int (type_code tok) = ''9''
         \<and> body tok = least_significant_digits 6
               (low32 (SipHash_2_4 (replicate 16 1) (le_uint32 7)))
         \<and> length (le_uint32 7) = 4
         \<and> py_int (body tok) = Inr challenge
         \<and> auth tok = least_significant_digits 6
               (low32 (SipHash_2_4 (replicate 16 0) (le_uint32 1 @ [9] @ le_uint32 challenge)))
         \<and> length (le_uint32 1 @ [9 :: byte] @ le_uint32 challenge) = 9)"
proof -
  have ka: "length (replicate 16 (1 :: byte)) = 16"
    and kc: "length (replicate 16 (0 :: byte)) = 16" by simp_all
  have a: "(0 :: int) \<le> 7" "(7 :: int) < 2 ^ 32" by simp_all
  have c: "(0 :: int) \<le> 1" "(1 :: int) < 2 ^ 32" by simp_all
  from ka kc a c link_accessory_token [OF ka kc a c, of SipHash_2_4]
  show ?thesis by blast
qed

section \<open>Key length\<close>

text \<open>
  Claim C6. Every builder called with a symmetric key whose length is not 16 bytes fails on
  its key-length assertion, whatever the counters, the identifier and the hash are: nothing
  is packed or hashed before, and no token is returned.
\<close>

theorem invalid_key_length_rejected:
  "(length controller_sym_key \<noteq> 16 \<longrightarrow>
      generic_controller_action_builder mac action controller_command_count
        controller_sym_key = Inl AssertionError
      \<and> specific_accessory_builder mac t accessory_nexus_id controller_command_count
          controller_sym_key = Inl AssertionError)
   \<and> (length accessory_sym_key \<noteq> 16 \<or> length controller_sym_key \<noteq> 16 \<longrightarrow>
        challenge_mode_3 mac controller_command_count accessory_command_count
          accessory_sym_key controller_sym_key = Inl AssertionError)"
  by (simp add: generic_controller_action_builder_def specific_accessory_builder_def
      challenge_mode_3_def Let_def del: pack.simps)

theorem invalid_key_length_rejected_witness:
  "length (replicate 15 (0 :: byte)) \<noteq> 16 \<and> length (replicate 17 (0 :: byte)) \<noteq> 16
   \<and> generic_controller_action_builder SipHash_2_4 UNLINK_ALL_ACCESSORIES 1
         (replicate 15 0) = Inl AssertionError
   \<and> specific_accessory_builder SipHash_2_4 UNLINK_ACCESSORY 5 1
         (replicate 15 0) = Inl AssertionError
   \<and> challenge_mode_3 SipHash_2_4 1 1 (replicate 16 0) (replicate 15 0) = Inl AssertionError
   \<and> generic_controller_action_builder SipHash_2_4 UNLINK_ALL_ACCESSORIES 1
         (replicate 17 0) = Inl AssertionError
   \<and> specific_accessory_builder SipHash_2_4 UNLINK_ACCESSORY 5 1
         (replicate 17 0) = Inl AssertionError
   \<and> challenge_mode_3 SipHash_2_4 1 1 (replicate 17 0) (replicate 16 0) = Inl AssertionError"
proof -
  have short: "length (replicate 15 (0 :: byte)) \<noteq> 16"
    and long: "length (replicate 17 (0 :: byte)) \<noteq> 16" by simp_all
  from short long
    invalid_key_length_rejected [of "replicate 15 0" SipHash_2_4 UNLINK_ALL_ACCESSORIES 1
      UNLINK_ACCESSORY 5 "replicate 16 0" 1]
    invalid_key_length_rejected [of "replicate 17 0" SipHash_2_4 UNLINK_ALL_ACCESSORIES 1
      UNLINK_ACCESSORY 5 "replicate 16 0" 1]
    invalid_key_length_rejected [of "replicate 16 0" SipHash_2_4 UNLINK_ALL_ACCESSORIES 1
      UNLINK_ACCESSORY 5 "replicate 17 0" 1]
  show ?thesis by blast
qed

section \<open>Field widths\<close>

lemma specific_builder_unfolded:
  "specific_accessory_builder mac t accessory_nexus_id controller_command_count
     controller_sym_key =
   (if length controller_sym_key \<noteq> 16 then Inl AssertionError
    else case pack [(32, controller_command_count), (8, OriginCommandType_value t),
                    (16, accessory_nexus_id div 2 ^ 32 mod 2 ^ 16),
                    (32, accessory_nexus_id mod 2 ^ 32)] of
           Inl e \<Rightarrow> Inl e
         | Inr packed_target_inputs \<Rightarrow>
             if length packed_target_inputs \<noteq> 11 then Inl AssertionError
             else Inr \<lparr>type_code = OriginCommandType_value t,
                       body = format_0d 1 (accessory_nexus_id mod 2 ^ 32 mod 10),
                       auth = digits_from_siphash
                                (mac controller_sym_key packed_target_inputs) 6\<rparr>)"
  by (simp only: specific_accessory_builder_def SpecificLinkedAccessoryToken_init_def Let_def
      authority_id_bits device_id_low32)

lemma specific_builder_high_bits:
  "specific_accessory_builder mac t (accessory_nexus_id + k * 2 ^ 48) controller_command_count
     controller_sym_key =
   specific_accessory_builder mac t accessory_nexus_id controller_command_count
     controller_sym_key"
  by (simp only: specific_builder_unfolded high_bits_device high_bits_authority)

lemma generic_builder_counter_overflow:
  "2 ^ 32 \<le> controller_command_count \<Longrightarrow>
   generic_controller_action_builder mac action controller_command_count controller_sym_key =
     Inl (if length controller_sym_key = 16 then CreationError else AssertionError)"
  by (simp add: generic_controller_action_builder_def Let_def pack_first_overflow
      del: pack.simps)

lemma specific_builder_counter_overflow:
  "2 ^ 32 \<le> controller_command_count \<Longrightarrow>
   specific_accessory_builder mac t accessory_nexus_id controller_command_count
     controller_sym_key =
     Inl (if length controller_sym_key = 16 then CreationError else AssertionError)"
  by (simp add: specific_accessory_builder_def Let_def pack_first_overflow del: pack.simps)

lemma link_builder_accessory_counter_overflow:
  "2 ^ 32 \<le> accessory_command_count \<Longrightarrow>
   challenge_mode_3 mac controller_command_count accessory_command_count
     accessory_sym_key controller_sym_key =
     Inl (if length accessory_sym_key = 16 \<and> length controller_sym_key = 16
          then CreationError else AssertionError)"
  by (simp add: challenge_mode_3_def Let_def pack_first_overflow del: pack.simps)

lemma link_builder_controller_counter_overflow:
  assumes "2 ^ 32 \<le> controller_command_count"
  shows "challenge_mode_3 mac controller_command_count accessory_command_count
           accessory_sym_key controller_sym_key =
         Inl (if length accessory_sym_key = 16 \<and> length controller_sym_key = 16
              then CreationError else AssertionError)"
proof (cases "length accessory_sym_key = 16 \<and> length controller_sym_key = 16")
  case False
  then show ?thesis
    by (auto simp add: challenge_mode_3_def Let_def simp del: pack.simps)
next
  case True
  show ?thesis
  proof (cases "0 \<le> accessory_command_count \<and> accessory_command_count < 2 ^ 32")
    case False
    then have "uintle 32 accessory_command_count = Inl CreationError"
      by (auto simp add: uintle_def)
    then show ?thesis
      using True by (simp add: challenge_mode_3_def Let_def)
  next
    case inrange: True
    have p1: "pack [(32, accessory_command_count)] = Inr (le_uint32 accessory_command_count)"
      using inrange by (simp add: uintle_32)
    have i: "py_int (least_significant_digits 6
               (low32 (mac accessory_sym_key (le_uint32 accessory_command_count))))
             = Inr (int (low32 (mac accessory_sym_key (le_uint32 accessory_command_count))
                      mod 10 ^ 6))"
      by (rule py_int_least_significant_digits) simp
    have p2: "pack ((32, controller_command_count) # rest_fields) = Inl CreationError"
      for rest_fields
      by (rule pack_first_overflow) (rule assms)
    show ?thesis
      using True i
      by (simp only: challenge_mode_3_def Let_def six_digits p1 p2)
         (simp add: length_le_uint32)
  qed
qed

lemma format_0d_Suc_0_digit:
  "0 \<le> i \<Longrightarrow> i < 10 \<Longrightarrow> format_0d (Suc 0) i = [digit_char (nat i)]"
  using format_0d_digit by simp

text \<open>
  Claim C4, as stated: a call with a counter of \<open>2 ^ 32\<close> or more, or an accessory
  identifier of \<open>2 ^ 48\<close> or more, is rejected and no token is produced. The identifier
  part fails: the builder masks the identifier, so the identifier \<open>2 ^ 48\<close> gives a token,
  the one of identifier 0 (authority bytes 0, device bytes 0, body digit 0).
\<close>

theorem identifier_overflow_counterexample:
  "(2 :: int) ^ 48 \<le> 281474976710656
   \<and> specific_accessory_builder SipHash_2_4 UNLINK_ACCESSORY 281474976710656 1
         (replicate 16 0) =
       Inr \<lparr>type_code = 2, body = ''0'',
            auth = least_significant_digits 6
                     (low32 (SipHash_2_4 (replicate 16 0)
                               [1, 0, 0, 0, 2, 0, 0, 0, 0, 0, 0]))\<rparr>"
proof -
  have k: "length (replicate 16 (0 :: byte)) = 16" by simp
  have lo: "(0 :: int) \<le> 1" and hi: "(1 :: int) < 2 ^ 32" by simp_all
  show ?thesis
    using specific_builder_result [OF k lo hi, of SipHash_2_4 UNLINK_ACCESSORY 281474976710656]
    by (simp add: format_0d_Suc_0_digit digit_char_0 le_uint32_0 le_uint32_1 le_uint16_0
        six_digits)
qed

text \<open>
  Claim C4, amended: a call with a controller or accessory counter of \<open>2 ^ 32\<close> or more is
  rejected and returns no token, by every builder and for every identifier and hash: the
  packing raises \<open>CreationError\<close> when the keys have 16 bytes, and the key-length assertion
  fails before that otherwise.
\<close>

theorem counter_overflow_rejected:
  "(2 ^ 32 \<le> controller_command_count \<longrightarrow>
      generic_controller_action_builder mac action controller_command_count
        controller_sym_key =
        Inl (if length controller_sym_key = 16 then CreationError else AssertionError)
      \<and> specific_accessory_builder mac t accessory_nexus_id controller_command_count
          controller_sym_key =
          Inl (if length controller_sym_key = 16 then CreationError else AssertionError))
   \<and> (2 ^ 32 \<le> controller_command_count \<or> 2 ^ 32 \<le> accessory_command_count \<longrightarrow>
        challenge_mode_3 mac controller_command_count accessory_command_count
          accessory_sym_key controller_sym_key =
          Inl (if length accessory_sym_key = 16 \<and> length controller_sym_key = 16
               then CreationError else AssertionError))"
  using generic_builder_counter_overflow specific_builder_counter_overflow
    link_builder_accessory_counter_overflow link_builder_controller_counter_overflow
  by blast

theorem counter_overflow_rejected_witness:
  "(2 :: int) ^ 32 \<le> 4294967296
   \<and> generic_controller_action_builder SipHash_2_4 UNLINK_ALL_ACCESSORIES 4294967296
         (replicate 16 0) = Inl CreationError
   \<and> specific_accessory_builder SipHash_2_4 UNLINK_ACCESSORY 5 4294967296
         (replicate 16 0) = Inl CreationError
   \<and> challenge_mode_3 SipHash_2_4 4294967296 1 (replicate 16 0) (replicate 16 0) =
         Inl CreationError
   \<and> challenge_mode_3 SipHash_2_4 1 4294967296 (replicate 16 0) (replicate 16 0) =
         Inl CreationError"
proof -
  have big: "(2 :: int) ^ 32 \<le> 4294967296" by simp
  have k: "length (replicate 16 (0 :: byte)) = 16" by simp
  from big k
    counter_overflow_rejected [where controller_command_count = 4294967296
      and mac = SipHash_2_4 and action = UNLINK_ALL_ACCESSORIES
      and controller_sym_key = "replicate 16 0" and t = UNLINK_ACCESSORY
      and accessory_nexus_id = 5 and accessory_command_count = 1
      and accessory_sym_key = "replicate 16 0"]
    counter_overflow_rejected [where controller_command_count = 1
      and mac = SipHash_2_4 and action = UNLINK_ALL_ACCESSORIES
      and controller_sym_key = "replicate 16 0" and t = UNLINK_ACCESSORY
      and accessory_nexus_id = 5 and accessory_command_count = 4294967296
      and accessory_sym_key = "replicate 16 0"]
  show ?thesis by simp
qed

text \<open>
  Claim C10. For every accessory identifier and every non-negative \<open>k\<close>, the
  specific-accessory builder returns, for a 16-byte key and an unsigned 32-bit counter, a
  token, and the same token for the identifier plus \<open>k * 2 ^ 48\<close>: the bits of the
  identifier from bit 48 up reach neither the body nor the packing.
\<close>

theorem identifier_high_bits_ignored:
  assumes "length controller_sym_key = 16"
    and "0 \<le> controller_command_count" and "controller_command_count < 2 ^ 32"
  shows "\<exists>tok.
           specific_accessory_builder mac t accessory_nexus_id controller_command_count
             controller_sym_key = Inr tok
           \<and> specific_accessory_builder mac t (accessory_nexus_id + int k * 2 ^ 48)
               controller_command_count controller_sym_key = Inr tok"
proof -
  have same:
    "specific_accessory_builder mac t (accessory_nexus_id + int k * 2 ^ 48)
       controller_command_count controller_sym_key =
     specific_accessory_builder mac t accessory_nexus_id controller_command_count
       controller_sym_key"
    by (rule specific_builder_high_bits)
  obtain tok where r:
    "specific_accessory_builder mac t accessory_nexus_id controller_command_count
       controller_sym_key = Inr tok"
    using specific_builder_result [OF assms] by blast
  from r have "specific_accessory_builder mac t (accessory_nexus_id + int k * 2 ^ 48)
      controller_command_count controller_sym_key = Inr tok"
    by (simp only: same)
  with r show ?thesis by blast
qed

theorem identifier_high_bits_ignored_witness:
  "length (replicate 16 (0 :: byte)) = 16 \<and> (0 :: int) \<le> 1 \<and> (1 :: int) < 2 ^ 32
   \<and> (\<exists>tok.
         specific_accessory_builder SipHash_2_4 UNLOCK_ACCESSORY 5 1 (replicate 16 0) = Inr tok
         \<and> specific_accessory_builder SipHash_2_4 UNLOCK_ACCESSORY (5 + int 3 * 2 ^ 48) 1
             (replicate 16 0) = Inr tok)"
proof -
  have k: "length (replicate 16 (0 :: byte)) = 16" by simp
  have lo: "(0 :: int) \<le> 1" and hi: "(1 :: int) < 2 ^ 32" by simp_all
  from k lo hi
    identifier_high_bits_ignored [OF k lo hi, of SipHash_2_4 UNLOCK_ACCESSORY 5 3]
  show ?thesis by blast
qed

section \<open>The truncated identifier\<close>

text \<open>
  Claim C8, as stated: two identifiers up to \<open>2 ^ 48 - 1\<close> that agree modulo 10 get the
  same body digit. It fails above 32 bits, since the digit is taken from the low 32 bits of
  the identifier: \<open>2 ^ 32\<close> and \<open>6\<close> agree modulo 10 and get the body digits 0 and 6.
\<close>

theorem body_digit_collision_counterexample:
  "(4294967296 :: int) \<noteq> 6 \<and> (4294967296 :: int) \<le> 2 ^ 48 - 1 \<and> (6 :: int) \<le> 2 ^ 48 - 1
   \<and> (4294967296 :: int) mod 10 = 6 mod 10
   \<and> body (projr (specific_accessory_builder SipHash_2_4 UNLINK_ACCESSORY 4294967296 1
                     (replicate 16 0))) = ''0''
   \<and> body (projr (specific_accessory_builder SipHash_2_4 UNLINK_ACCESSORY 6 1
                     (replicate 16 0))) = ''6''
   \<and> body (projr (specific_accessory_builder SipHash_2_4 UNLINK_ACCESSORY 4294967296 1
                     (replicate 16 0)))
       \<noteq> body (projr (specific_accessory_builder SipHash_2_4 UNLINK_ACCESSORY 6 1
                         (replicate 16 0)))"
proof -
  have k: "length (replicate 16 (0 :: byte)) = 16" by simp
  have lo: "(0 :: int) \<le> 1" and hi: "(1 :: int) < 2 ^ 32" by simp_all
  show ?thesis
    by (simp add: specific_builder_result [OF k lo hi] format_0d_Suc_0_digit digit_char_0
        digit_char_6)
qed

text \<open>
  Claim C8, amended: two identifiers whose low 32 bits (the device component) agree modulo
  10 get the same single body digit from the specific-accessory builder, for the same type,
  counter and key; in particular two identifiers below \<open>2 ^ 32\<close> that agree modulo 10.
\<close>

theorem body_digit_collision:
  assumes "length controller_sym_key = 16"
    and "0 \<le> controller_command_count" and "controller_command_count < 2 ^ 32"
    and "a mod 2 ^ 32 mod 10 = b mod 2 ^ 32 mod 10"
  shows "\<exists>ta tb.
           specific_accessory_builder mac t a controller_command_count controller_sym_key
             = Inr ta
           \<and> specific_accessory_builder mac t b controller_command_count controller_sym_key
               = Inr tb
           \<and> body ta = body tb
           \<and> body ta = [digit_char (nat (a mod 2 ^ 32 mod 10))]"
proof -
  have d: "format_0d 1 (x mod 2 ^ 32 mod 10) = [digit_char (nat (x mod 2 ^ 32 mod 10))]"
    for x :: int
    by (rule format_0d_digit) simp_all
  from d [of a] d [of b] assms(4) show ?thesis
    by (simp add: specific_builder_result [OF assms(1,2,3)])
qed

theorem body_digit_collision_witness:
  "length (replicate 16 (0 :: byte)) = 16 \<and> (0 :: int) \<le> 1 \<and> (1 :: int) < 2 ^ 32
   \<and> (4294967303 :: int) mod 2 ^ 32 mod 10 = 17 mod 2 ^ 32 mod 10
   \<and> (\<exists>ta tb.
         specific_accessory_builder SipHash_2_4 UNLINK_ACCESSORY 4294967303 1 (replicate 16 0)
           = Inr ta
         \<and> specific_accessory_builder SipHash_2_4 UNLINK_ACCESSORY 17 1 (replicate 16 0)
             = Inr tb
         \<and> body ta = body tb
         \<and> body ta = [digit_char (nat (4294967303 mod 2 ^ 32 mod 10))])"
proof -
  have k: "length (replicate 16 (0 :: byte)) = 16" by simp
  have lo: "(0 :: int) \<le> 1" and hi: "(1 :: int) < 2 ^ 32" by simp_all
  have m: "(4294967303 :: int) mod 2 ^ 32 mod 10 = 17 mod 2 ^ 32 mod 10" by simp
  from k lo hi m
    body_digit_collision [OF k lo hi m, of SipHash_2_4 UNLINK_ACCESSORY]
  show ?thesis by blast
qed

section \<open>Which calls return a token\<close>

lemma pack_first_negative: "v < 0 \<Longrightarrow> pack ((len, v) # rest_fields) = Inl CreationError"
  by (simp add: uintle_negative)

lemma generic_builder_Inr:
  assumes "generic_controller_action_builder mac action controller_command_count
             controller_sym_key = Inr tok"
  shows "length controller_sym_key = 16 \<and> 0 \<le> controller_command_count
         \<and> controller_command_count < 2 ^ 32"
proof -
  have k: "length controller_sym_key = 16"
    using assms by (auto simp add: generic_controller_action_builder_def split: if_splits)
  have "\<not> controller_command_count < 0"
    using assms k
    by (auto simp add: generic_controller_action_builder_def Let_def pack_first_negative
        simp del: pack.simps)
  moreover have "\<not> 2 ^ 32 \<le> controller_command_count"
    using assms by (auto simp add: generic_builder_counter_overflow)
  ultimately show ?thesis using k by simp
qed

lemma specific_builder_Inr:
  assumes "specific_accessory_builder mac t accessory_nexus_id controller_command_count
             controller_sym_key = Inr tok"
  shows "length controller_sym_key = 16 \<and> 0 \<le> controller_command_count
         \<and> controller_command_count < 2 ^ 32"
proof -
  have k: "length controller_sym_key = 16"
    using assms by (auto simp add: specific_accessory_builder_def split: if_splits)
  have "\<not> controller_command_count < 0"
    using assms k
    by (auto simp add: specific_accessory_builder_def Let_def pack_first_negative
        simp del: pack.simps)
  moreover have "\<not> 2 ^ 32 \<le> controller_command_count"
    using assms by (auto simp add: specific_builder_counter_overflow)
  ultimately show ?thesis using k by simp
qed

lemma link_builder_Inr:
  assumes "challenge_mode_3 mac controller_command_count accessory_command_count
             accessory_sym_key controller_sym_key = Inr tok"
  shows "length accessory_sym_key = 16 \<and> length controller_sym_key = 16
         \<and> 0 \<le> accessory_command_count \<and> accessory_command_count < 2 ^ 32
         \<and> 0 \<le> controller_command_count \<and> controller_command_count < 2 ^ 32"
proof -
  have k: "length accessory_sym_key = 16 \<and> length controller_sym_key = 16"
    using assms by (auto simp add: challenge_mode_3_def Let_def split: if_splits)
  have a: "0 \<le> accessory_command_count \<and> accessory_command_count < 2 ^ 32"
  proof (rule ccontr)
    assume "\<not> (0 \<le> accessory_command_count \<and> accessory_command_count < 2 ^ 32)"
    then have "uintle 32 accessory_command_count = Inl CreationError"
      by (auto simp add: uintle_def)
    then show False
      using assms k by (simp add: challenge_mode_3_def Let_def)
  qed
  have hi: "controller_command_count < 2 ^ 32"
    using assms by (auto simp add: link_builder_controller_counter_overflow not_le [symmetric])
  have lo: "0 \<le> controller_command_count"
  proof (rule ccontr)
    assume "\<not> 0 \<le> controller_command_count"
    then have neg: "controller_command_count < 0" by simp
    have p1: "pack [(32, accessory_command_count)] = Inr (le_uint32 accessory_command_count)"
      using a by (simp add: uintle_32)
    have i: "py_int (least_significant_digits 6
               (low32 (mac accessory_sym_key (le_uint32 accessory_command_count))))
             = Inr (int (low32 (mac accessory_sym_key (le_uint32 accessory_command_count))
                      mod 10 ^ 6))"
      by (rule py_int_least_significant_digits) simp
    have p2: "pack ((32, controller_command_count) # rest_fields) = Inl CreationError"
      for rest_fields
      by (rule pack_first_negative) (rule neg)
    have "challenge_mode_3 mac controller_command_count accessory_command_count
            accessory_sym_key controller_sym_key = Inl CreationError"
      using k i
      by (simp only: challenge_mode_3_def Let_def six_digits p1 p2)
         (simp add: length_le_uint32)
    with assms show False by simp
  qed
  from k a lo hi show ?thesis by simp
qed

section \<open>The shape of the tokens\<close>

lemma generic_token_shape:
  assumes "generic_controller_action_builder mac action controller_command_count
             controller_sym_key = Inr tok"
  shows "well_formed_token tok 2"
proof -
  note v = generic_builder_Inr [OF assms]
  have r: "tok = \<lparr>type_code = 0,
              body = format_0d 2 (GenericControllerActionType_value action),
              auth = digits_from_siphash
                       (mac controller_sym_key
                          (le_uint32 controller_command_count @ [0]
                             @ le_uint32 (GenericControllerActionType_value action))) 6\<rparr>"
    using assms generic_builder_result [of controller_sym_key controller_command_count mac action] v
    by simp
  have b: "format_0d 2 (GenericControllerActionType_value action) =
             zero_padded 2 (nat (GenericControllerActionType_value action))"
    by (rule format_0d_nonneg) (simp add: GenericControllerActionType_value_range)
  have l: "length (zero_padded 2 (nat (GenericControllerActionType_value action))) = 2"
    by (cases action) (simp_all add: zero_padded_2_0 zero_padded_2_1)
  show ?thesis
    using l
    by (simp add: well_formed_token_def r b zero_padded_all_digits six_digits length_lsd
        lsd_all_digits)
qed

lemma specific_token_shape:
  assumes "specific_accessory_builder mac t accessory_nexus_id controller_command_count
             controller_sym_key = Inr tok"
  shows "well_formed_token tok 1"
proof -
  note v = specific_builder_Inr [OF assms]
  have r: "tok = \<lparr>type_code = OriginCommandType_value t,
              body = format_0d 1 (accessory_nexus_id mod 2 ^ 32 mod 10),
              auth = digits_from_siphash
                       (mac controller_sym_key
                          (le_uint32 controller_command_count
                             @ [word_of_int (OriginCommandType_value t)]
                             @ le_uint16 (accessory_nexus_id div 2 ^ 32 mod 2 ^ 16)
                             @ le_uint32 (accessory_nexus_id mod 2 ^ 32))) 6\<rparr>"
    using assms
      specific_builder_result [of controller_sym_key controller_command_count mac t
        accessory_nexus_id] v
    by simp
  have d: "format_0d 1 (accessory_nexus_id mod 2 ^ 32 mod 10) =
             [digit_char (nat (accessory_nexus_id mod 2 ^ 32 mod 10))]"
    by (rule format_0d_digit) simp_all
  have g: "is_digit (digit_char (nat (accessory_nexus_id mod 2 ^ 32 mod 10)))"
    by (rule is_digit_digit_char) simp
  show ?thesis
    using OriginCommandType_value_range [of t] g d
    by (simp add: well_formed_token_def r six_digits length_lsd lsd_all_digits)
qed

lemma link_token_shape:
  assumes "challenge_mode_3 mac controller_command_count accessory_command_count
             accessory_sym_key controller_sym_key = Inr tok"
  shows "well_formed_token tok 6"
proof -
  note v = link_builder_Inr [OF assms]
  from v have "challenge_mode_3 mac controller_command_count accessory_command_count
                 accessory_sym_key controller_sym_key =
               Inr \<lparr>type_code = 9,
                    body = least_significant_digits 6
                       (low32 (mac accessory_sym_key (le_uint32 accessory_command_count))),
                    auth = least_significant_digits 6
                       (low32 (mac controller_sym_key
                          (le_uint32 controller_command_count @ [9]
                             @ le_uint32 (int (low32 (mac accessory_sym_key
                                 (le_uint32 accessory_command_count)) mod 10 ^ 6)))))\<rparr>"
    by (intro link_builder_result) simp_all
  with assms show ?thesis
    by (auto simp add: well_formed_token_def length_lsd lsd_all_digits)
qed

section \<open>Serialisation\<close>

lemma shift_digit_is_digit: "is_digit (shift_digit c)"
  unfolding shift_digit_def by (rule is_digit_digit_char) simp

lemma shift_obscure_contract: "obscure_contract shift_obscure"
proof -
  have "list_all is_digit (map shift_digit (take n s) @ drop n s)"
    if "list_all is_digit s" for s n
  proof -
    have "list_all is_digit (drop n s)"
      using that by (auto simp add: list_all_iff dest: in_set_dropD)
    moreover have "list_all is_digit (map shift_digit (take n s))"
      by (simp add: list_all_iff shift_digit_is_digit)
    ultimately show ?thesis by simp
  qed
  then show ?thesis
    by (simp add: obscure_contract_def shift_obscure_def)
qed

lemma to_digits_plain:
  "to_digits full_obscure tok False = str_int (type_code tok) @ body tok @ auth tok"
  by (simp add: to_digits_def)

lemma to_digits_obscured:
  "to_digits full_obscure tok True =
     full_obscure (to_digits full_obscure tok False) (obscured_digit_count tok)"
  by (simp add: to_digits_def)

lemma str_int_type_code:
  assumes "well_formed_token tok w"
  shows "str_int (type_code tok) = [digit_char (nat (type_code tok))]"
  using assms by (simp add: well_formed_token_def str_int_digit)

lemma plain_shape:
  assumes "well_formed_token tok w"
  shows "length (to_digits full_obscure tok False) = 1 + w + 6"
    and "list_all is_digit (to_digits full_obscure tok False)"
    and "drop (1 + w) (to_digits full_obscure tok False) = auth tok"
    and "obscured_digit_count tok = 1 + w"
proof -
  have t: "is_digit (digit_char (nat (type_code tok)))"
  proof (rule is_digit_digit_char)
    from assms show "nat (type_code tok) < 10"
      unfolding well_formed_token_def by linarith
  qed
  show "length (to_digits full_obscure tok False) = 1 + w + 6"
    using assms by (simp add: to_digits_plain str_int_type_code [OF assms] well_formed_token_def)
  show "list_all is_digit (to_digits full_obscure tok False)"
    using assms t
    by (simp add: to_digits_plain str_int_type_code [OF assms] well_formed_token_def)
  show "drop (1 + w) (to_digits full_obscure tok False) = auth tok"
    using assms by (simp add: to_digits_plain str_int_type_code [OF assms] well_formed_token_def)
  show "obscured_digit_count tok = 1 + w"
    using assms
    by (simp add: obscured_digit_count_def str_int_type_code [OF assms] well_formed_token_def)
qed

lemma obscured_shape:
  assumes "well_formed_token tok w" and "obscure_contract full_obscure"
  shows "length (to_digits full_obscure tok True) = 1 + w + 6"
    and "list_all is_digit (to_digits full_obscure tok True)"
    and "drop (1 + w) (to_digits full_obscure tok True) = auth tok"
proof -
  let ?plain = "to_digits full_obscure tok False"
  have n: "1 + w \<le> length ?plain"
    by (simp add: plain_shape(1) [OF assms(1)])
  have c: "length (full_obscure ?plain (1 + w)) = length ?plain
           \<and> drop (1 + w) (full_obscure ?plain (1 + w)) = drop (1 + w) ?plain
           \<and> (list_all is_digit ?plain \<longrightarrow> list_all is_digit (full_obscure ?plain (1 + w)))"
    using assms(2) n unfolding obscure_contract_def by blast
  have o: "to_digits full_obscure tok True = full_obscure ?plain (1 + w)"
    by (simp only: to_digits_obscured plain_shape(4) [OF assms(1)])
  show "length (to_digits full_obscure tok True) = 1 + w + 6"
    using c by (simp only: o plain_shape(1) [OF assms(1)])
  show "list_all is_digit (to_digits full_obscure tok True)"
    using c plain_shape(2) [OF assms(1), of full_obscure] by (simp only: o)
  show "drop (1 + w) (to_digits full_obscure tok True) = auth tok"
    using c by (simp only: o plain_shape(3) [OF assms(1)])
qed

lemma serialised_shape:
  assumes "well_formed_token tok w" and "obscured \<longrightarrow> obscure_contract full_obscure"
  shows "length (to_digits full_obscure tok obscured) = 1 + w + 6
         \<and> list_all is_digit (to_digits full_obscure tok obscured)
         \<and> drop (1 + w) (to_digits full_obscure tok obscured) = auth tok"
proof (cases obscured)
  case True
  with assms(2) have "obscure_contract full_obscure" by simp
  from obscured_shape [OF assms(1) this] True show ?thesis by simp
next
  case False
  with plain_shape(1,2,3) [OF assms(1), of full_obscure] show ?thesis by simp
qed

text \<open>
  Claim C5. For every token a builder returns, and every obfuscation transform that keeps the
  length and touches only the prefix it is given, the serialisations with and without
  obfuscation have the same length and the same last 6 characters, the auth field; the
  transform is applied to the unobscured string with the count \<open>1 + len(body)\<close>.
\<close>

theorem obfuscation_boundary:
  assumes "obscure_contract full_obscure"
    and "generic_controller_action_builder mac action controller_command_count
           controller_sym_key = Inr tok
         \<or> specific_accessory_builder mac t accessory_nexus_id controller_command_count
             controller_sym_key = Inr tok
         \<or> challenge_mode_3 mac controller_command_count accessory_command_count
             accessory_sym_key controller_sym_key = Inr tok"
  shows "length (to_digits full_obscure tok True) = length (to_digits full_obscure tok False)
         \<and> length (auth tok) = 6
         \<and> drop (length (to_digits full_obscure tok True) - 6)
               (to_digits full_obscure tok True) = auth tok
         \<and> drop (length (to_digits full_obscure tok False) - 6)
               (to_digits full_obscure tok False) = auth tok
         \<and> to_digits full_obscure tok True =
               full_obscure (to_digits full_obscure tok False) (1 + length (body tok))"
proof -
  from assms(2) obtain w where wf: "well_formed_token tok w"
    using generic_token_shape specific_token_shape link_token_shape by blast
  then have w: "length (body tok) = w" and a: "length (auth tok) = 6"
    by (simp_all add: well_formed_token_def)
  note p = plain_shape(1) [OF wf, of full_obscure] plain_shape(3) [OF wf, of full_obscure]
  note o = obscured_shape(1) [OF wf assms(1)] obscured_shape(3) [OF wf assms(1)]
  have "to_digits full_obscure tok True =
          full_obscure (to_digits full_obscure tok False) (1 + length (body tok))"
    by (simp only: to_digits_obscured plain_shape(4) [OF wf] w)
  with p o a show ?thesis by simp
qed

theorem obfuscation_boundary_witness:
  "obscure_contract shift_obscure
   \<and> (\<exists>tok.
        (generic_controller_action_builder SipHash_2_4 UNLINK_ALL_ACCESSORIES 1
           (replicate 16 0) = Inr tok
         \<or> specific_accessory_builder SipHash_2_4 UNLINK_ACCESSORY 5 1
             (replicate 16 0) = Inr tok
         \<or> challenge_mode_3 SipHash_2_4 1 1 (replicate 16 0) (replicate 16 0) = Inr tok)
        \<and> length (to_digits shift_obscure tok True) = length (to_digits shift_obscure tok False)
        \<and> length (auth tok) = 6
        \<and> drop (length (to_digits shift_obscure tok True) - 6)
              (to_digits shift_obscure tok True) = auth tok
        \<and> drop (length (to_digits shift_obscure tok False) - 6)
              (to_digits shift_obscure tok False) = auth tok
        \<and> to_digits shift_obscure tok True =
              shift_obscure (to_digits shift_obscure tok False) (1 + length (body tok)))"
proof -
  have k: "length (replicate 16 (0 :: byte)) = 16" by simp
  have lo: "(0 :: int) \<le> 1" and hi: "(1 :: int) < 2 ^ 32" by simp_all
  obtain tok where tok:
    "generic_controller_action_builder SipHash_2_4 UNLINK_ALL_ACCESSORIES 1
       (replicate 16 0) = Inr tok"
    using generic_builder_result [OF k lo hi] by blast
  then have d:
    "generic_controller_action_builder SipHash_2_4 UNLINK_ALL_ACCESSORIES 1
       (replicate 16 0) = Inr tok
     \<or> specific_accessory_builder SipHash_2_4 UNLINK_ACCESSORY 5 1
         (replicate 16 0) = Inr tok
     \<or> challenge_mode_3 SipHash_2_4 1 1 (replicate 16 0) (replicate 16 0) = Inr tok"
    by blast
  from shift_obscure_contract d obfuscation_boundary [OF shift_obscure_contract d]
  show ?thesis by blast
qed

text \<open>
  Claim C7. For valid inputs (16-byte keys, unsigned 32-bit counters), the serialised token
  consists of decimal digits only, its length is \<open>1 + len(body) + len(auth)\<close>, and this is
  9 for generic controller actions, 8 for specific-accessory actions and 13 for the link
  challenge, whatever the input values; for the obscured form this relies on the contract of
  the obfuscation transform.
\<close>

theorem serialized_token_length:
  assumes "length controller_sym_key = 16" and "length accessory_sym_key = 16"
    and "0 \<le> controller_command_count" and "controller_command_count < 2 ^ 32"
    and "0 \<le> accessory_command_count" and "accessory_command_count < 2 ^ 32"
    and "obscured \<longrightarrow> obscure_contract full_obscure"
  shows "(\<exists>tok.
            generic_controller_action_builder mac action controller_command_count
              controller_sym_key = Inr tok
            \<and> list_all is_digit (to_digits full_obscure tok obscured)
            \<and> length (to_digits full_obscure tok obscured)
                = 1 + length (body tok) + length (auth tok)
            \<and> length (to_digits full_obscure tok obscured) = 9)
         \<and> (\<exists>tok.
            specific_accessory_builder mac t accessory_nexus_id controller_command_count
              controller_sym_key = Inr tok
            \<and> list_all is_digit (to_digits full_obscure tok obscured)
            \<and> length (to_digits full_obscure tok obscured)
                = 1 + length (body tok) + length (auth tok)
            \<and> length (to_digits full_obscure tok obscured) = 8)
         \<and> (\<exists>tok.
            challenge_mode_3 mac controller_command_count accessory_command_count
              accessory_sym_key controller_sym_key = Inr tok
            \<and> list_all is_digit (to_digits full_obscure tok obscured)
            \<and> length (to_digits full_obscure tok obscured)
                = 1 + length (body tok) + length (auth tok)
            \<and> length (to_digits full_obscure tok obscured) = 13)"
proof -
  have shape: "list_all is_digit (to_digits full_obscure tok obscured)
               \<and> length (to_digits full_obscure tok obscured)
                   = 1 + length (body tok) + length (auth tok)
               \<and> length (to_digits full_obscure tok obscured) = 1 + w + 6"
    if "well_formed_token tok w" for tok w
    using serialised_shape [OF that assms(7)] that by (simp add: well_formed_token_def)
  obtain g where g: "generic_controller_action_builder mac action controller_command_count
                       controller_sym_key = Inr g"
    using generic_builder_result [OF assms(1,3,4)] by blast
  obtain s where s: "specific_accessory_builder mac t accessory_nexus_id
                       controller_command_count controller_sym_key = Inr s"
    using specific_builder_result [OF assms(1,3,4)] by blast
  obtain l where l: "challenge_mode_3 mac controller_command_count accessory_command_count
                       accessory_sym_key controller_sym_key = Inr l"
    using link_builder_result [OF assms(2,1,5,6,3,4)] by blast
  from shape [OF generic_token_shape [OF g]] shape [OF specific_token_shape [OF s]]
    shape [OF link_token_shape [OF l]] g s l
  show ?thesis by simp
qed

theorem serialized_token_length_witness:
  "length (replicate 16 (0 :: byte)) = 16 \<and> length (replicate 16 (1 :: byte)) = 16
   \<and> (0 :: int) \<le> 1 \<and> (1 :: int) < 2 ^ 32 \<and> (0 :: int) \<le> 7 \<and> (7 :: int) < 2 ^ 32
   \<and> obscure_contract shift_obscure
   \<and> (\<exists>tok.
         generic_controller_action_builder SipHash_2_4 UNLINK_ALL_ACCESSORIES 1
           (replicate 16 0) = Inr tok
         \<and> list_all is_digit (to_digits shift_obscure tok True)
         \<and> length (to_digits shift_obscure tok True)
             = 1 + length (body tok) + length (auth tok)
         \<and> length (to_digits shift_obscure tok True) = 9)
   \<and> (\<exists>tok.
         specific_accessory_builder SipHash_2_4 UNLINK_ACCESSORY 281474976710655 1
           (replicate 16 0) = Inr tok
         \<and> list_all is_digit (to_digits shift_obscure tok True)
         \<and> length (to_digits shift_obscure tok True)
             = 1 + length (body tok) + length (auth tok)
         \<and> length (to_digits shift_obscure tok True) = 8)
   \<and> (\<exists>tok.
         challenge_mode_3 SipHash_2_4 1 7 (replicate 16 1) (replicate 16 0) = Inr tok
         \<and> list_all is_digit (to_digits shift_obscure tok True)
         \<and> length (to_digits shift_obscure tok True)
             = 1 + length (body tok) + length (auth tok)
         \<and> length (to_digits shift_obscure tok True) = 13)"
proof -
  have kc: "length (replicate 16 (0 :: byte)) = 16"
    and ka: "length (replicate 16 (1 :: byte)) = 16" by simp_all
  have c: "(0 :: int) \<le> 1" "(1 :: int) < 2 ^ 32" by simp_all
  have a: "(0 :: int) \<le> 7" "(7 :: int) < 2 ^ 32" by simp_all
  have o: "True \<longrightarrow> obscure_contract shift_obscure"
    using shift_obscure_contract by simp
  from kc ka c a shift_obscure_contract
    serialized_token_length [OF kc ka c a o, of SipHash_2_4 UNLINK_ALL_ACCESSORIES
      UNLINK_ACCESSORY 281474976710655]
  show ?thesis by blast
qed

section \<open>SipHash-2-4 on concrete inputs\<close>

text \<open>
  The first official test vector of SipHash-2-4 (key \<open>00 01 \<dots> 0f\<close>, empty message), and
  the tag of the packing \<open>[1, 0, 0, 0, 0, 0, 0, 0, 0]\<close> under the all-zero key.
\<close>

lemma SipHash_2_4_test_vector:
  "SipHash_2_4 [0, 1, 2, 3, 4, 5, 6, 7, 8, 9, 10, 11, 12, 13, 14, 15] [] = 0x726fdb47dd0e0e31"
  by (simp add: SipHash_2_4_def sip_compress_def sip_round_def rotl64_def)

lemma SipHash_2_4_zero_key_example:
  "SipHash_2_4 [0, 0, 0, 0, 0, 0, 0, 0, 0, 0, 0, 0, 0, 0, 0, 0] [1, 0, 0, 0, 0, 0, 0, 0, 0]
     = 0xb20dbe42df95b57e"
  by (simp add: SipHash_2_4_def sip_compress_def sip_round_def rotl64_def)

lemma replicate_16_zero:
  "replicate 16 (0 :: byte) = [0, 0, 0, 0, 0, 0, 0, 0, 0, 0, 0, 0, 0, 0, 0, 0]"
  by (simp add: numeral_eq_Suc)

lemma low32_example: "low32 0xb20dbe42df95b57e = 3751130494"
  by (simp add: low32_def)

lemma digit_char_3: "digit_char 3 = CHR ''3''"
  unfolding digit_char_def by code_simp

lemma digit_char_4: "digit_char 4 = CHR ''4''"
  unfolding digit_char_def by code_simp

lemma least_significant_digits_6:
  "least_significant_digits 6 v =
     [digit_char (v div 10 div 10 div 10 div 10 div 10 mod 10),
      digit_char (v div 10 div 10 div 10 div 10 mod 10),
      digit_char (v div 10 div 10 div 10 mod 10),
      digit_char (v div 10 div 10 mod 10),
      digit_char (v div 10 mod 10),
      digit_char (v mod 10)]"
proof -
  have six: "(6 :: nat) = Suc (Suc (Suc (Suc (Suc (Suc 0)))))" by simp
  show ?thesis
    by (simp only: six least_significant_digits.simps append.simps)
qed

lemma example_digits: "least_significant_digits 6 (low32 0xb20dbe42df95b57e) = ''130494''"
  by (simp add: low32_example least_significant_digits_6 digit_char_0 digit_char_Suc_0
      digit_char_3 digit_char_4 digit_char_9)

lemma SipHash_2_4_example_digits:
  "least_significant_digits 6
     (low32 (SipHash_2_4 (replicate 16 0) [1, 0, 0, 0, 0, 0, 0, 0, 0])) = ''130494''"
  by (simp only: replicate_16_zero SipHash_2_4_zero_key_example example_digits)

section \<open>An example: unlinking all accessories\<close>

text \<open>
  Claim C9. With a controller key of 16 zero bytes and \<open>controller_command_count = 1\<close>,
  building \<open>UNLINK_ALL_ACCESSORIES\<close> yields a string of 9 decimal digits; unobscured, its
  first 3 characters are \<open>000\<close>; its last 6 characters are the 6 least-significant decimal
  digits of the low 32 bits of the hash of the key and the packing of count 1, type code 0,
  action code 0 (for the obscured form, under the contract of the obfuscation transform).
\<close>

theorem unlink_all_accessories_example:
  "\<exists>tok.
     unlink_all_accessories mac 1 (replicate 16 0) = Inr tok
     \<and> to_digits full_obscure tok False =
         ''000'' @ least_significant_digits 6
                     (low32 (mac (replicate 16 0) [1, 0, 0, 0, 0, 0, 0, 0, 0]))
     \<and> length (to_digits full_obscure tok False) = 9
     \<and> list_all is_digit (to_digits full_obscure tok False)
     \<and> (obscure_contract full_obscure \<longrightarrow>
          length (to_digits full_obscure tok True) = 9
          \<and> list_all is_digit (to_digits full_obscure tok True)
          \<and> drop 3 (to_digits full_obscure tok True) =
              least_significant_digits 6
                (low32 (mac (replicate 16 0) [1, 0, 0, 0, 0, 0, 0, 0, 0])))"
proof -
  let ?digits = "least_significant_digits 6
                   (low32 (mac (replicate 16 0) [1, 0, 0, 0, 0, 0, 0, 0, 0]))"
  let ?tok = "\<lparr>type_code = 0, body = ''00'', auth = ?digits\<rparr>"
  have k: "length (replicate 16 (0 :: byte)) = 16" by simp
  have lo: "(0 :: int) \<le> 1" and hi: "(1 :: int) < 2 ^ 32" by simp_all
  have b: "format_0d 2 0 = ''00''"
    using format_0d_nonneg [of 0 2] by (simp add: zero_padded_2_0)
  have r: "unlink_all_accessories mac 1 (replicate 16 0) = Inr ?tok"
    using generic_builder_result [OF k lo hi, of mac UNLINK_ALL_ACCESSORIES]
    by (simp add: unlink_all_accessories_def b le_uint32_0 le_uint32_1 six_digits)
  have wf: "well_formed_token ?tok 2"
    using r generic_token_shape [of mac UNLINK_ALL_ACCESSORIES 1 "replicate 16 0" ?tok]
    by (simp only: unlink_all_accessories_def)
  have plain: "to_digits full_obscure ?tok False = ''000'' @ ?digits"
    by (simp add: to_digits_plain str_int_0)
  have "length (to_digits full_obscure ?tok False) = 9"
    and "list_all is_digit (to_digits full_obscure ?tok False)"
    using plain_shape(1,2) [OF wf, of full_obscure] by simp_all
  moreover have "length (to_digits full_obscure ?tok True) = 9
      \<and> list_all is_digit (to_digits full_obscure ?tok True)
      \<and> drop 3 (to_digits full_obscure ?tok True) = ?digits"
    if "obscure_contract full_obscure"
    using obscured_shape [OF wf that] by (simp add: numeral_3_eq_3)
  ultimately show ?thesis
    using r plain by blast
qed

theorem unlink_all_accessories_example_witness:
  "obscure_contract shift_obscure
   \<and> (\<exists>tok.
         unlink_all_accessories SipHash_2_4 1 (replicate 16 0) = Inr tok
         \<and> to_digits shift_obscure tok False = ''000130494''
         \<and> length (to_digits shift_obscure tok False) = 9
         \<and> list_all is_digit (to_digits shift_obscure tok False)
         \<and> length (to_digits shift_obscure tok True) = 9
         \<and> list_all is_digit (to_digits shift_obscure tok True)
         \<and> drop 3 (to_digits shift_obscure tok True) = ''130494'')"
proof -
  from shift_obscure_contract
    unlink_all_accessories_example [of SipHash_2_4 shift_obscure]
  obtain tok where
    "unlink_all_accessories SipHash_2_4 1 (replicate 16 0) = Inr tok"
    "to_digits shift_obscure tok False =
       ''000'' @ least_significant_digits 6
                   (low32 (SipHash_2_4 (replicate 16 0) [1, 0, 0, 0, 0, 0, 0, 0, 0]))"
    "length (to_digits shift_obscure tok False) = 9"
    "list_all is_digit (to_digits shift_obscure tok False)"
    "length (to_digits shift_obscure tok True) = 9"
    "list_all is_digit (to_digits shift_obscure tok True)"
    "drop 3 (to_digits shift_obscure tok True) =
       least_significant_digits 6
         (low32 (SipHash_2_4 (replicate 16 0) [1, 0, 0, 0, 0, 0, 0, 0, 0]))"
    by blast
  then have
    "unlink_all_accessories SipHash_2_4 1 (replicate 16 0) = Inr tok
     \<and> to_digits shift_obscure tok False = ''000130494''
     \<and> length (to_digits shift_obscure tok False) = 9
     \<and> list_all is_digit (to_digits shift_obscure tok False)
     \<and> length (to_digits shift_obscure tok True) = 9
     \<and> list_all is_digit (to_digits shift_obscure tok True)
     \<and> drop 3 (to_digits shift_obscure tok True) = ''130494''"
    by (simp add: SipHash_2_4_example_digits)
  with shift_obscure_contract show ?thesis by blast
qed

end
